theory Spec2Isabelle
  imports Main
begin

section \<open>Data of broadcast.js\<close>

text \<open>
  A notice is an object literal of the \<open>notices\<close> array. Its \<open>importance\<close> is a
  JavaScript string that \<open>displayNotice\<close> tests for truthiness, so it is modelled as
  \<open>string option\<close>: \<open>None\<close> is a notice without the property (\<open>undefined\<close>).
\<close>

record notice =
  nid :: int
  message :: string
  importance :: "string option"
  timestamp :: string

record logEntry =
  log_timestamp :: string
  log_message :: string
  log_type :: string

record configuration =
  noticeDisplayTime :: nat
  maxLogEntries :: int

record store_rec =
  logs :: "logEntry list"
  currentNotice :: "notice option"
  noticeTimer :: "nat option"

text \<open>The \<open>div\<close> elements that \<open>updateLogsUI\<close> creates: a class name and either a text
  content or the markup assigned to \<open>innerHTML\<close>.\<close>

datatype content = TextContent string | InnerHTML string

record element =
  className :: string
  content :: content

text \<open>
  The environment of the script: its two constants and the three methods of \<open>Date\<close> it
  calls, whose results depend on the host's locale and clock. \<open>toISOString\<close> maps the
  clock (milliseconds) to the text of \<open>new Date().toISOString()\<close>; the other two map a
  timestamp text \<open>t\<close> to \<open>new Date(t).toLocaleDateString()\<close> and
  \<open>new Date(t).toLocaleTimeString()\<close>.
\<close>

record env =
  cfg :: configuration
  static_notices :: "notice list"
  toISOString :: "nat \<Rightarrow> string"
  toLocaleDateString :: "string \<Rightarrow> string"
  toLocaleTimeString :: "string \<Rightarrow> string"

text \<open>
  The state: the \<open>store\<close> object, the four page elements the script looks up by
  identifier (\<open>None\<close> when \<open>getElementById\<close> returns \<open>null\<close>), the host's timer
  queue and clock, and the messages written with \<open>console.error\<close>.
  The banner is represented by the token list of its \<open>classList\<close>, the text element by
  its \<open>textContent\<close>, the close button by the number of click listeners the script has
  attached, the log container by its children. The four elements are distinct, and
  none of the other three lies inside the log container, whose children the script
  replaces. A pending timer is a pair of its handle and the time at which it is due; the
  queue holds the timers of the script only, which all have the same callback. The clock
  does not move while a function of the script runs.
\<close>

record state =
  store :: store_rec
  noticeBanner :: "string list option"
  noticeText :: "string option"
  closeNotice :: "nat option"
  logsContainer :: "element list option"
  pending :: "(nat \<times> nat) list"
  lastHandle :: nat
  now :: nat
  console :: "string list"

datatype error = SyntaxError | InvalidCharacterError

datatype outcome = Normal state | Raised error state

fun state_of :: "outcome \<Rightarrow> state" where
  "state_of (Normal s) = s"
| "state_of (Raised err s) = s"

fun and_then :: "outcome \<Rightarrow> (state \<Rightarrow> outcome) \<Rightarrow> outcome" where
  "and_then (Normal s) f = f s"
| "and_then (Raised err s) f = Raised err s"

section \<open>Constants of the script\<close>

definition config :: configuration where
  "config = \<lparr>noticeDisplayTime = 15000, maxLogEntries = 50\<rparr>"

definition notices :: "notice list" where
  "notices =
    [\<lparr>nid = 7, message = ''Distrubute your X posts easily with our Quote Generator'',
       importance = Some ''update'', timestamp = ''2025-04-02T02:42:00Z''\<rparr>,
     \<lparr>nid = 6, message = ''Verify a domain SSL status, without getting cached. (REMOVED)'',
       importance = Some ''warning'', timestamp = ''2025-03-10T02:42:00Z''\<rparr>,
     \<lparr>nid = 5, message = ''Huge update for X profile, business & affiliate badges added'',
       importance = Some ''update'', timestamp = ''2025-02-27T10:00:00Z''\<rparr>,
     \<lparr>nid = 4, message = ''WhatsApp link generator has been updated with new features!'',
       importance = Some ''update'', timestamp = ''2025-02-27T10:00:00Z''\<rparr>,
     \<lparr>nid = 3, message = ''System maintenance scheduled for tomorrow at 2 AM UTC'',
       importance = Some ''warning'', timestamp = ''2025-02-26T15:30:00Z''\<rparr>,
     \<lparr>nid = 2, message = ''New tool coming soon: Color Palette Generator'',
       importance = Some ''info'', timestamp = ''2025-02-25T12:45:00Z''\<rparr>,
     \<lparr>nid = 1, message = ''Welcome to Web Tools Collection! Explore our tools.'',
       importance = Some ''info'', timestamp = ''2025-02-24T09:00:00Z''\<rparr>]"

definition initial_store :: store_rec where
  "initial_store = \<lparr>logs = [], currentNotice = None, noticeTimer = None\<rparr>"

section \<open>The host: console, class lists, timers, arrays\<close>

definition console_error :: "string \<Rightarrow> state \<Rightarrow> state" where
  "console_error msg s = s\<lparr>console := console s @ [msg]\<rparr>"

definition ascii_whitespace :: "char \<Rightarrow> bool" where
  "ascii_whitespace c = (c \<in> set [CHR 0x09, CHR 0x0A, CHR 0x0C, CHR 0x0D, CHR 0x20])"

text \<open>\<open>classList.add\<close> throws on an empty token and on a token with whitespace, and
  adds a token only when it is not there yet.\<close>

definition classList_add :: "string \<Rightarrow> string list \<Rightarrow> error + string list" where
  "classList_add tok cs =
     (if tok = [] then Inl SyntaxError
      else if list_ex ascii_whitespace tok then Inl InvalidCharacterError
      else Inr (if tok \<in> set cs then cs else cs @ [tok]))"

definition classList_remove :: "string \<Rightarrow> string list \<Rightarrow> string list" where
  "classList_remove tok cs = removeAll tok cs"

definition setTimeout :: "nat \<Rightarrow> state \<Rightarrow> nat \<times> state" where
  "setTimeout delay s =
     (let h = Suc (lastHandle s)
      in (h, s\<lparr>pending := pending s @ [(h, now s + delay)], lastHandle := h\<rparr>))"

definition clearTimeout :: "nat \<Rightarrow> state \<Rightarrow> state" where
  "clearTimeout h s = s\<lparr>pending := filter (\<lambda>p. fst p \<noteq> h) (pending s)\<rparr>"

text \<open>Truthiness of \<open>store.noticeTimer\<close> (a handle or \<open>null\<close>) and of
  \<open>notice.importance\<close> (a string or \<open>undefined\<close>).\<close>

definition truthy_handle :: "nat option \<Rightarrow> bool" where
  "truthy_handle t = (case t of None \<Rightarrow> False | Some h \<Rightarrow> h \<noteq> 0)"

definition truthy_string :: "string option \<Rightarrow> bool" where
  "truthy_string v = (case v of None \<Rightarrow> False | Some str \<Rightarrow> str \<noteq> [])"

text \<open>A string or \<open>undefined\<close> inside a template literal.\<close>

definition js_string :: "string option \<Rightarrow> string" where
  "js_string v = (case v of None \<Rightarrow> ''undefined'' | Some str \<Rightarrow> str)"

text \<open>\<open>xs.slice(0, e)\<close>: a negative end counts from the end of the array.\<close>

definition slice0 :: "'a list \<Rightarrow> int \<Rightarrow> 'a list" where
  "slice0 xs e = (if e < 0 then take (nat (int (length xs) + e)) xs else take (nat e) xs)"

section \<open>The functions of the script\<close>

definition hideNotice :: "state \<Rightarrow> state" where
  "hideNotice s =
     (let s1 = (case noticeBanner s of
                  Some cs \<Rightarrow> s\<lparr>noticeBanner := Some (classList_remove ''active'' cs)\<rparr>
                | None \<Rightarrow> s)
      in if truthy_handle (noticeTimer (store s1))
         then (clearTimeout (the (noticeTimer (store s1))) s1)
                \<lparr>store := (store s1)\<lparr>noticeTimer := None\<rparr>\<rparr>
         else s1)"

definition displayNotice :: "env \<Rightarrow> notice \<Rightarrow> state \<Rightarrow> outcome" where
  "displayNotice e n s =
     (if noticeBanner s = None \<or> noticeText s = None
      then Normal (console_error ''Notice banner elements not found'' s)
      else
        let s1 = s\<lparr>noticeText := Some (message n)\<rparr>;
            s2 = s1\<lparr>noticeBanner := Some [''notice-banner'', ''active'']\<rparr>;
            added = (if truthy_string (importance n)
                     then classList_add (the (importance n)) (the (noticeBanner s2))
                     else Inr (the (noticeBanner s2)))
        in case added of
             Inl err \<Rightarrow> Raised err s2
           | Inr cs \<Rightarrow>
               (case classList_add ''active'' cs of
                  Inl err \<Rightarrow> Raised err (s2\<lparr>noticeBanner := Some cs\<rparr>)
                | Inr cs' \<Rightarrow>
                    let s3 = s2\<lparr>noticeBanner := Some cs'\<rparr>;
                        s4 = (if truthy_handle (noticeTimer (store s3))
                              then clearTimeout (the (noticeTimer (store s3))) s3 else s3);
                        (h, s5) = setTimeout (noticeDisplayTime (cfg e)) s4;
                        s6 = s5\<lparr>store := (store s5)\<lparr>noticeTimer := Some h\<rparr>\<rparr>
                    in Normal (s6\<lparr>store := (store s6)\<lparr>currentNotice := Some n\<rparr>\<rparr>)))"

definition getAllNotices :: "env \<Rightarrow> state \<Rightarrow> notice list \<times> state" where
  "getAllNotices e s = (static_notices e, s)"

definition sectionHeader :: "string \<Rightarrow> element" where
  "sectionHeader txt = \<lparr>className = ''log-section-header'', content = TextContent txt\<rparr>"

definition entryMarkup :: "string \<Rightarrow> string \<Rightarrow> string" where
  \<open>entryMarkup stamp msg =
     ''\<newline>                <span class="log-timestamp">['' @ stamp @ '']</span>'' @
     ''\<newline>                <span class="log-message">'' @ msg @ ''</span>'' @
     ''\<newline>            ''\<close>

definition noticeElement :: "env \<Rightarrow> notice \<Rightarrow> element" where
  "noticeElement e n =
     \<lparr>className = ''log-entry log-'' @ js_string (importance n),
      content = InnerHTML (entryMarkup
        (toLocaleDateString e (timestamp n) @ '' '' @ toLocaleTimeString e (timestamp n))
        (message n))\<rparr>"

definition logElement :: "env \<Rightarrow> logEntry \<Rightarrow> element" where
  "logElement e l =
     \<lparr>className = ''log-entry log-'' @ log_type l,
      content = InnerHTML (entryMarkup (toLocaleTimeString e (log_timestamp l)) (log_message l))\<rparr>"

definition appendChild :: "element \<Rightarrow> element list \<Rightarrow> element list" where
  "appendChild el kids = kids @ [el]"

definition updateLogsUI :: "env \<Rightarrow> state \<Rightarrow> state" where
  "updateLogsUI e s =
     (case logsContainer s of
        None \<Rightarrow> s
      | Some old \<Rightarrow>
          let k0 = [];
              k1 = appendChild (sectionHeader ''Notice History:'') k0;
              k2 = fold (\<lambda>n kids. appendChild (noticeElement e n) kids) (static_notices e) k1;
              k3 = appendChild (sectionHeader ''System Logs:'') k2;
              k4 = fold (\<lambda>l kids. appendChild (logElement e l) kids) (logs (store s)) k3
          in s\<lparr>logsContainer := Some k4\<rparr>)"

text \<open>\<open>mkEntry\<close> is the object \<open>logEntry\<close> that \<open>addLogEntry\<close> builds: the default
  of its parameter \<open>type\<close> applies when the argument is \<open>undefined\<close>.\<close>

definition mkEntry :: "env \<Rightarrow> state \<Rightarrow> string \<Rightarrow> string option \<Rightarrow> logEntry" where
  "mkEntry e s msg ty =
     \<lparr>log_timestamp = toISOString e (now s), log_message = msg,
      log_type = (case ty of None \<Rightarrow> ''info'' | Some t \<Rightarrow> t)\<rparr>"

definition addLogEntry :: "env \<Rightarrow> string \<Rightarrow> string option \<Rightarrow> state \<Rightarrow> state" where
  "addLogEntry e msg ty s =
     (let entry = mkEntry e s msg ty;
          ls = entry # logs (store s);
          ls' = (if int (length ls) > maxLogEntries (cfg e)
                 then slice0 ls (maxLogEntries (cfg e)) else ls)
      in updateLogsUI e (s\<lparr>store := (store s)\<lparr>logs := ls'\<rparr>\<rparr>))"

text \<open>The click listener that \<open>setupCloseButton\<close> attaches.\<close>

definition closeListener :: "env \<Rightarrow> state \<Rightarrow> state" where
  "closeListener e s = addLogEntry e ''Notice manually closed by user'' None (hideNotice s)"

definition setupCloseButton :: "state \<Rightarrow> state" where
  "setupCloseButton s =
     (case closeNotice s of
        Some k \<Rightarrow> s\<lparr>closeNotice := Some (Suc k)\<rparr>
      | None \<Rightarrow> console_error ''Close button element not found'' s)"

definition init :: "env \<Rightarrow> state \<Rightarrow> outcome" where
  "init e s =
     (let s1 = addLogEntry e ''Broadcast system initialized'' None s;
          shown =
            (if length (static_notices e) > 0
             then (let latestNotice = static_notices e ! 0
                   in and_then (displayNotice e latestNotice s1)
                        (\<lambda>s2. Normal (addLogEntry e
                                 (''Displaying notice: '' @ message latestNotice)
                                 (importance latestNotice) s2)))
             else Normal (addLogEntry e ''No notices available'' None s1))
      in and_then shown
           (\<lambda>s3. Normal (addLogEntry e ''Broadcast system ready'' None
                           (setupCloseButton (updateLogsUI e s3)))))"

section \<open>Events of the host\<close>

text \<open>The callback of the auto-hide timer, and the passing of \<open>d\<close> milliseconds: the
  timers that have become due run their callback and leave the queue (a timer fires as
  soon as it is due). A click runs every listener attached to the close button.\<close>

definition timerCallback :: "state \<Rightarrow> state" where
  "timerCallback s =
     (case noticeBanner s of
        Some cs \<Rightarrow> s\<lparr>noticeBanner := Some (classList_remove ''active'' cs)\<rparr>
      | None \<Rightarrow> s)"

definition advance :: "nat \<Rightarrow> state \<Rightarrow> state" where
  "advance d s =
     (let t = now s + d;
          due = filter (\<lambda>p. snd p \<le> t) (pending s);
          s1 = fold (\<lambda>p. timerCallback) due s
      in s1\<lparr>pending := filter (\<lambda>p. \<not> snd p \<le> t) (pending s), now := t\<rparr>)"

definition click :: "env \<Rightarrow> state \<Rightarrow> state" where
  "click e s = (case closeNotice s of None \<Rightarrow> s | Some k \<Rightarrow> (closeListener e ^^ k) s)"

section \<open>Runs of the page\<close>

text \<open>What can happen to the page between two moments: a call of one of the five
  public functions, a click on the close button, or the passing of time. An exception
  ends the call and leaves the state as it was at the throw.\<close>

datatype action =
    Init
  | Display notice
  | Hide
  | AppendLog string "string option"
  | GetAllNotices
  | Click
  | Advance nat

fun step :: "env \<Rightarrow> action \<Rightarrow> state \<Rightarrow> state" where
  "step e Init s = state_of (init e s)"
| "step e (Display n) s = state_of (displayNotice e n s)"
| "step e Hide s = hideNotice s"
| "step e (AppendLog msg ty) s = addLogEntry e msg ty s"
| "step e GetAllNotices s = snd (getAllNotices e s)"
| "step e Click s = click e s"
| "step e (Advance d) s = advance d s"

definition run :: "env \<Rightarrow> action list \<Rightarrow> state \<Rightarrow> state" where
  "run e acts s = fold (step e) acts s"

fun displays :: "action \<Rightarrow> bool" where
  "displays Init = True"
| "displays (Display n) = True"
| "displays a = False"

section \<open>Predicates on states\<close>

definition banner_visible :: "state \<Rightarrow> bool" where
  "banner_visible s = (case noticeBanner s of None \<Rightarrow> False | Some cs \<Rightarrow> ''active'' \<in> set cs)"

text \<open>Every pending timer is the one whose handle the store holds, and there is at
  most one.\<close>

definition timer_inv :: "state \<Rightarrow> bool" where
  "timer_inv s =
     (length (pending s) \<le> 1 \<and>
      list_all (\<lambda>p. noticeTimer (store s) = Some (fst p) \<and> fst p \<noteq> 0) (pending s))"

text \<open>A class token that \<open>classList.add\<close> accepts.\<close>

definition valid_token :: "string \<Rightarrow> bool" where
  "valid_token tok = (tok \<noteq> [] \<and> \<not> list_ex ascii_whitespace tok)"

text \<open>The class list that \<open>displayNotice\<close> leaves on the banner, and the notices whose
  importance does not make \<open>classList.add\<close> throw.\<close>

definition bannerClasses :: "notice \<Rightarrow> string list" where
  "bannerClasses n =
     (if truthy_string (importance n) \<and> the (importance n) \<notin> set [''notice-banner'', ''active'']
      then [''notice-banner'', ''active'', the (importance n)]
      else [''notice-banner'', ''active''])"

definition accepts :: "notice \<Rightarrow> bool" where
  "accepts n = (case importance n of None \<Rightarrow> True | Some tok \<Rightarrow> \<not> list_ex ascii_whitespace tok)"

fun returns :: "outcome \<Rightarrow> bool" where
  "returns (Normal s) = True"
| "returns (Raised err s) = False"

section \<open>Example pages\<close>

text \<open>A host for the examples. Its clock counts from the epoch and is printed as
  JavaScript prints it on the first day (the date part stays at that day); its locale
  prints a timestamp's date as the first ten characters and its time as the rest after
  the separator.\<close>

definition two_digits :: "nat \<Rightarrow> string" where
  "two_digits k = [''0123456789'' ! (k div 10 mod 10), ''0123456789'' ! (k mod 10)]"

definition three_digits :: "nat \<Rightarrow> string" where
  "three_digits k = (''0123456789'' ! (k div 100 mod 10)) # two_digits k"

definition clock_text :: "nat \<Rightarrow> string" where
  "clock_text t =
     ''1970-01-01T'' @ two_digits (t div 3600000 mod 24) @ '':'' @
     two_digits (t div 60000 mod 60) @ '':'' @ two_digits (t div 1000 mod 60) @ ''.'' @
     three_digits (t mod 1000) @ ''Z''"

definition example_env :: "notice list \<Rightarrow> env" where
  "example_env ns =
     \<lparr>cfg = config, static_notices = ns, toISOString = clock_text,
      toLocaleDateString = take 10, toLocaleTimeString = drop 11\<rparr>"

text \<open>A freshly loaded page with all four elements, and one with none of them.\<close>

definition full_page :: state where
  "full_page =
     \<lparr>store = initial_store, noticeBanner = Some [''notice-banner''], noticeText = Some [],
      closeNotice = Some 0, logsContainer = Some [], pending = [], lastHandle = 0, now = 0,
      console = []\<rparr>"

definition bare_page :: state where
  "bare_page =
     \<lparr>store = initial_store, noticeBanner = None, noticeText = None,
      closeNotice = None, logsContainer = None, pending = [], lastHandle = 0, now = 0,
      console = []\<rparr>"

text \<open>The two-notice list of the specification's example, the same list with the
  importance of its first notice left out, and a notice without importance.\<close>

definition spec_example :: "notice list" where
  "spec_example =
     [\<lparr>nid = 2, message = ''B'', importance = Some ''warning'', timestamp = ''2025-02-25T12:45:00Z''\<rparr>,
      \<lparr>nid = 1, message = ''A'', importance = Some ''info'', timestamp = ''2025-02-24T09:00:00Z''\<rparr>]"

definition unstyled_example :: "notice list" where
  "unstyled_example =
     [\<lparr>nid = 2, message = ''B'', importance = None, timestamp = ''2025-02-25T12:45:00Z''\<rparr>,
      \<lparr>nid = 1, message = ''A'', importance = Some ''info'', timestamp = ''2025-02-24T09:00:00Z''\<rparr>]"

definition unstyled_notice :: notice where
  "unstyled_notice =
     \<lparr>nid = 8, message = ''B'', importance = None, timestamp = ''2025-04-03T00:00:00Z''\<rparr>"

text \<open>The example host with a log of at most two entries.\<close>

definition two_entries :: env where
  "two_entries = (example_env [])\<lparr>cfg := \<lparr>noticeDisplayTime = 15000, maxLogEntries = 2\<rparr>\<rparr>"

text \<open>The full page after the first notice of the script has been displayed and its
  timer has fired.\<close>

definition fired_page :: state where
  "fired_page =
     advance 15000 (state_of (displayNotice (example_env notices) (notices ! 0) full_page))"

text \<open>Calls of \<open>addLogEntry\<close> separated in time: each call \<open>(d, msg, ty)\<close> happens \<open>d\<close>
  milliseconds after the one before it. \<open>stamped e t calls\<close> lists, in the order of the
  calls, the entries that are to result when the first delay starts at clock \<open>t\<close>: each
  carries the text of the clock at its own call, its message, and its type or \<open>info\<close>.\<close>

fun stamped :: "env \<Rightarrow> nat \<Rightarrow> (nat \<times> string \<times> string option) list \<Rightarrow> logEntry list" where
  "stamped e t [] = []"
| "stamped e t ((d, msg, ty) # calls) =
     \<lparr>log_timestamp = toISOString e (t + d), log_message = msg,
      log_type = (case ty of None \<Rightarrow> ''info'' | Some x \<Rightarrow> x)\<rparr> # stamped e (t + d) calls"

definition timed_calls :: "(nat \<times> string \<times> string option) list \<Rightarrow> action list" where
  "timed_calls calls = concat (map (\<lambda>(d, msg, ty). [Advance d, AppendLog msg ty]) calls)"

section \<open>What each function changes\<close>

lemma updateLogsUI_frame [simp]:
  "store (updateLogsUI e s) = store s"
  "noticeBanner (updateLogsUI e s) = noticeBanner s"
  "noticeText (updateLogsUI e s) = noticeText s"
  "closeNotice (updateLogsUI e s) = closeNotice s"
  "pending (updateLogsUI e s) = pending s"
  "lastHandle (updateLogsUI e s) = lastHandle s"
  "now (updateLogsUI e s) = now s"
  "console (updateLogsUI e s) = console s"
  by (simp_all add: updateLogsUI_def Let_def split: option.splits)

lemma fold_appendChild: "fold (\<lambda>x kids. appendChild (f x) kids) xs k = k @ map f xs"
  by (induction xs arbitrary: k) (simp_all add: appendChild_def)

lemma updateLogsUI_present:
  "logsContainer s = Some old \<Longrightarrow>
   updateLogsUI e s = s\<lparr>logsContainer := Some (sectionHeader ''Notice History:'' # map (noticeElement e) (static_notices e) @ sectionHeader ''System Logs:'' # map (logElement e) (logs (store s)))\<rparr>"
  by (simp add: updateLogsUI_def Let_def fold_appendChild appendChild_def)

lemma updateLogsUI_absent: "logsContainer s = None \<Longrightarrow> updateLogsUI e s = s"
  by (simp add: updateLogsUI_def)

lemma updateLogsUI_container_None [simp]:
  "(logsContainer (updateLogsUI e s) = None) = (logsContainer s = None)"
  by (simp add: updateLogsUI_def Let_def split: option.splits)

lemma addLogEntry_frame [simp]:
  "noticeBanner (addLogEntry e m t s) = noticeBanner s"
  "noticeText (addLogEntry e m t s) = noticeText s"
  "closeNotice (addLogEntry e m t s) = closeNotice s"
  "pending (addLogEntry e m t s) = pending s"
  "lastHandle (addLogEntry e m t s) = lastHandle s"
  "now (addLogEntry e m t s) = now s"
  "console (addLogEntry e m t s) = console s"
  "currentNotice (store (addLogEntry e m t s)) = currentNotice (store s)"
  "noticeTimer (store (addLogEntry e m t s)) = noticeTimer (store s)"
  "(logsContainer (addLogEntry e m t s) = None) = (logsContainer s = None)"
  by (simp_all add: addLogEntry_def Let_def)

lemma addLogEntry_logs:
  "logs (store (addLogEntry e m t s)) =
     (let ls = mkEntry e s m t # logs (store s)
      in if int (length ls) > maxLogEntries (cfg e) then slice0 ls (maxLogEntries (cfg e)) else ls)"
  by (simp add: addLogEntry_def Let_def mkEntry_def)

lemma addLogEntry_logs_take:
  "0 \<le> maxLogEntries (cfg e) \<Longrightarrow>
   logs (store (addLogEntry e m t s)) = take (nat (maxLogEntries (cfg e))) (mkEntry e s m t # logs (store s))"
  by (auto simp add: addLogEntry_logs Let_def slice0_def)

lemma hideNotice_frame [simp]:
  "noticeText (hideNotice s) = noticeText s"
  "closeNotice (hideNotice s) = closeNotice s"
  "logsContainer (hideNotice s) = logsContainer s"
  "lastHandle (hideNotice s) = lastHandle s"
  "now (hideNotice s) = now s"
  "console (hideNotice s) = console s"
  "logs (store (hideNotice s)) = logs (store s)"
  "currentNotice (store (hideNotice s)) = currentNotice (store s)"
  by (simp_all add: hideNotice_def Let_def clearTimeout_def split: option.splits)

lemma hideNotice_banner:
  "noticeBanner (hideNotice s) = map_option (removeAll ''active'') (noticeBanner s)"
  by (simp add: hideNotice_def Let_def clearTimeout_def classList_remove_def split: option.splits)

lemma hideNotice_timer:
  "noticeTimer (store (hideNotice s)) = (if truthy_handle (noticeTimer (store s)) then None else noticeTimer (store s))"
  by (simp add: hideNotice_def Let_def clearTimeout_def split: option.splits)

lemma hideNotice_pending:
  "pending (hideNotice s) = (if truthy_handle (noticeTimer (store s)) then filter (\<lambda>p. fst p \<noteq> the (noticeTimer (store s))) (pending s) else pending s)"
  by (simp add: hideNotice_def Let_def clearTimeout_def split: option.splits)

lemma hideNotice_idem: "hideNotice (hideNotice s) = hideNotice s"
  by (cases "noticeBanner s")
     (simp_all add: hideNotice_def Let_def clearTimeout_def classList_remove_def truthy_handle_def)

lemma active_token: "classList_add ''active'' cs = Inr (if ''active'' \<in> set cs then cs else cs @ [''active''])"
  by (simp add: classList_add_def ascii_whitespace_def)

lemma classList_add_valid:
  "tok \<noteq> [] \<Longrightarrow> \<not> list_ex ascii_whitespace tok \<Longrightarrow>
   classList_add tok cs = Inr (if tok \<in> set cs then cs else cs @ [tok])"
  by (simp add: classList_add_def)

lemma classList_add_invalid:
  "tok \<noteq> [] \<Longrightarrow> list_ex ascii_whitespace tok \<Longrightarrow>
   classList_add tok cs = Inl InvalidCharacterError"
  by (simp add: classList_add_def)

lemma displayNotice_missing:
  "noticeBanner s = None \<or> noticeText s = None \<Longrightarrow>
   displayNotice e n s = Normal (console_error ''Notice banner elements not found'' s)"
  by (simp add: displayNotice_def)

lemma displayNotice_ok:
  assumes "noticeBanner s = Some cs" "noticeText s = Some t" "accepts n"
  shows "displayNotice e n s =
     Normal (s\<lparr>store := (store s)\<lparr>currentNotice := Some n, noticeTimer := Some (Suc (lastHandle s))\<rparr>,
               noticeBanner := Some (bannerClasses n),
               noticeText := Some (message n),
               pending := (if truthy_handle (noticeTimer (store s))
                           then filter (\<lambda>p. fst p \<noteq> the (noticeTimer (store s))) (pending s)
                           else pending s) @ [(Suc (lastHandle s), now s + noticeDisplayTime (cfg e))],
               lastHandle := Suc (lastHandle s)\<rparr>)"
  using assms
  by (auto simp add: displayNotice_def Let_def active_token classList_add_valid accepts_def
        bannerClasses_def truthy_string_def setTimeout_def clearTimeout_def split: option.splits)

lemma displayNotice_raises:
  assumes "noticeBanner s = Some cs" "noticeText s = Some t" "\<not> accepts n"
  shows "displayNotice e n s =
     Raised InvalidCharacterError (s\<lparr>noticeText := Some (message n), noticeBanner := Some [''notice-banner'', ''active'']\<rparr>)"
  using assms
  by (auto simp add: displayNotice_def Let_def active_token classList_add_invalid accepts_def
        truthy_string_def split: option.splits)

lemma setupCloseButton_frame [simp]:
  "store (setupCloseButton s) = store s"
  "noticeBanner (setupCloseButton s) = noticeBanner s"
  "noticeText (setupCloseButton s) = noticeText s"
  "logsContainer (setupCloseButton s) = logsContainer s"
  "pending (setupCloseButton s) = pending s"
  "lastHandle (setupCloseButton s) = lastHandle s"
  "now (setupCloseButton s) = now s"
  by (simp_all add: setupCloseButton_def console_error_def split: option.splits)

lemma setupCloseButton_console:
  "console (setupCloseButton s) =
     console s @ (if closeNotice s = None then [''Close button element not found''] else [])"
  by (simp add: setupCloseButton_def console_error_def split: option.splits)

lemma setupCloseButton_listeners:
  "closeNotice (setupCloseButton s) = map_option Suc (closeNotice s)"
  by (simp add: setupCloseButton_def console_error_def split: option.splits)

lemma console_error_frame [simp]:
  "store (console_error m s) = store s"
  "noticeBanner (console_error m s) = noticeBanner s"
  "noticeText (console_error m s) = noticeText s"
  "closeNotice (console_error m s) = closeNotice s"
  "logsContainer (console_error m s) = logsContainer s"
  "pending (console_error m s) = pending s"
  "lastHandle (console_error m s) = lastHandle s"
  "now (console_error m s) = now s"
  "console (console_error m s) = console s @ [m]"
  by (simp_all add: console_error_def)

lemma init_empty:
  "static_notices e = [] \<Longrightarrow>
   init e s = Normal (addLogEntry e ''Broadcast system ready'' None
     (setupCloseButton (updateLogsUI e
        (addLogEntry e ''No notices available'' None
           (addLogEntry e ''Broadcast system initialized'' None s)))))"
  by (simp add: init_def Let_def)

lemma init_nonempty:
  "static_notices e = n # rest \<Longrightarrow>
   init e s = and_then (displayNotice e n (addLogEntry e ''Broadcast system initialized'' None s))
     (\<lambda>s2. Normal (addLogEntry e ''Broadcast system ready'' None
        (setupCloseButton (updateLogsUI e
           (addLogEntry e (''Displaying notice: '' @ message n) (importance n) s2)))))"
  by (cases "displayNotice e n (addLogEntry e ''Broadcast system initialized'' None s)")
     (simp_all add: init_def Let_def)

lemma displayNotice_Normal_frame:
  assumes "displayNotice e n s = Normal s'"
  shows "logs (store s') = logs (store s)" "now s' = now s" "closeNotice s' = closeNotice s"
    "logsContainer s' = logsContainer s"
proof -
  consider (missing) "noticeBanner s = None \<or> noticeText s = None"
    | (ok) cs t where "noticeBanner s = Some cs" "noticeText s = Some t" "accepts n"
    | (bad) cs t where "noticeBanner s = Some cs" "noticeText s = Some t" "\<not> accepts n"
    by (cases "noticeBanner s"; cases "noticeText s") auto
  then have "logs (store s') = logs (store s) \<and> now s' = now s \<and> closeNotice s' = closeNotice s \<and> logsContainer s' = logsContainer s"
  proof cases
    case missing
    with assms show ?thesis by (auto simp: displayNotice_missing)
  next
    case ok
    with assms show ?thesis by (auto simp: displayNotice_ok)
  next
    case bad
    with assms show ?thesis by (auto simp: displayNotice_raises)
  qed
  then show "logs (store s') = logs (store s)" "now s' = now s" "closeNotice s' = closeNotice s"
    "logsContainer s' = logsContainer s" by simp_all
qed

lemma take_Cons_take: "take k (x # take k xs) = take k (x # xs)"
  by (cases k) simp_all

lemma addLogEntry_logs_config:
  "cfg e = config \<Longrightarrow>
   logs (store (addLogEntry e m t s)) = take 50 (mkEntry e s m t # logs (store s))"
  by (simp add: addLogEntry_logs_take config_def)


lemma valid_accepts: "importance n = Some imp \<Longrightarrow> valid_token imp \<Longrightarrow> accepts n"
  by (simp add: accepts_def valid_token_def)

lemma falsy_accepts: "\<not> truthy_string (importance n) \<Longrightarrow> accepts n"
  by (auto simp add: accepts_def truthy_string_def split: option.splits)

lemma init_logs_Normal:
  assumes "cfg e = config" "static_notices e = n # rest"
    and "displayNotice e n (addLogEntry e ''Broadcast system initialized'' None s) = Normal s2"
  shows "logs (store (state_of (init e s))) =
     take 50 (mkEntry e s ''Broadcast system ready'' None #
              mkEntry e s (''Displaying notice: '' @ message n) (importance n) #
              mkEntry e s ''Broadcast system initialized'' None # logs (store s))"
proof -
  let ?s1 = "addLogEntry e ''Broadcast system initialized'' None s"
  have now2: "now s2 = now s" and logs2: "logs (store s2) = logs (store ?s1)"
    using displayNotice_Normal_frame [OF assms(3)] by simp_all
  have m1: "mkEntry e ?s1 m ty = mkEntry e s m ty" for m ty
    by (simp add: mkEntry_def)
  have m2: "mkEntry e s2 m ty = mkEntry e s m ty" for m ty
    by (simp add: mkEntry_def now2)
  have m3: "mkEntry e (setupCloseButton (updateLogsUI e (addLogEntry e m' ty' s2))) m ty
              = mkEntry e s m ty" for m ty m' ty'
    by (simp add: mkEntry_def now2)
  show ?thesis
    using assms(1,2)
    by (simp add: init_nonempty assms(3) addLogEntry_logs_config logs2 take_Cons_take m1 m2 m3)
qed

lemma displayNotice_cases:
  obtains (missing) "noticeBanner s = None \<or> noticeText s = None"
      "displayNotice e n s = Normal (console_error ''Notice banner elements not found'' s)"
  | (shown) cs t where "noticeBanner s = Some cs" "noticeText s = Some t" "accepts n"
      "displayNotice e n s =
         Normal (s\<lparr>store := (store s)\<lparr>currentNotice := Some n, noticeTimer := Some (Suc (lastHandle s))\<rparr>,
               noticeBanner := Some (bannerClasses n),
               noticeText := Some (message n),
               pending := (if truthy_handle (noticeTimer (store s))
                           then filter (\<lambda>p. fst p \<noteq> the (noticeTimer (store s))) (pending s)
                           else pending s) @ [(Suc (lastHandle s), now s + noticeDisplayTime (cfg e))],
               lastHandle := Suc (lastHandle s)\<rparr>)"
  | (thrown) cs t where "noticeBanner s = Some cs" "noticeText s = Some t" "\<not> accepts n"
      "displayNotice e n s =
         Raised InvalidCharacterError
           (s\<lparr>noticeText := Some (message n), noticeBanner := Some [''notice-banner'', ''active'']\<rparr>)"
proof (cases "noticeBanner s = None \<or> noticeText s = None")
  case True
  then show ?thesis using missing displayNotice_missing by blast
next
  case False
  then obtain cs t where p: "noticeBanner s = Some cs" "noticeText s = Some t" by auto
  show ?thesis
  proof (cases "accepts n")
    case True
    then show ?thesis using shown p displayNotice_ok by blast
  next
    case False
    then show ?thesis using thrown p displayNotice_raises by blast
  qed
qed

lemma displayNotice_trace:
  "returns (displayNotice e m t) \<Longrightarrow>
     lastHandle (state_of (displayNotice e m t)) = Suc (lastHandle t) \<or>
     console (state_of (displayNotice e m t)) = console t @ [''Notice banner elements not found'']"
  by (rule displayNotice_cases [of t e m]) simp_all

lemma displayNotice_logs:
  "logs (store (state_of (displayNotice e n s))) = logs (store s)"
  by (rule displayNotice_cases [of s e n]) simp_all

lemma displayNotice_now:
  "now (state_of (displayNotice e n s)) = now s"
  by (rule displayNotice_cases [of s e n]) simp_all

lemma addLogEntry_length:
  "0 \<le> maxLogEntries (cfg e) \<Longrightarrow>
   length (logs (store (addLogEntry e m t s))) \<le> nat (maxLogEntries (cfg e))"
  by (simp add: addLogEntry_logs_take)

lemma and_then_state:
  "state_of (and_then r (\<lambda>s. Normal (f s))) = (if returns r then f (state_of r) else state_of r)"
  by (cases r) simp_all

lemma init_length:
  assumes "0 \<le> maxLogEntries (cfg e)"
  shows "length (logs (store (state_of (init e s)))) \<le> nat (maxLogEntries (cfg e))"
proof (cases "static_notices e")
  case Nil
  then show ?thesis by (simp add: init_empty addLogEntry_length [OF assms])
next
  case (Cons n rest)
  show ?thesis
    by (simp add: init_nonempty [OF Cons] and_then_state addLogEntry_length [OF assms]
          displayNotice_logs)
qed

lemma timerCallback_frame [simp]:
  "store (timerCallback s) = store s"
  "noticeText (timerCallback s) = noticeText s"
  "closeNotice (timerCallback s) = closeNotice s"
  "logsContainer (timerCallback s) = logsContainer s"
  "pending (timerCallback s) = pending s"
  "lastHandle (timerCallback s) = lastHandle s"
  "now (timerCallback s) = now s"
  "console (timerCallback s) = console s"
  by (simp_all add: timerCallback_def split: option.splits)

lemma fold_timerCallback_frame [simp]:
  "store (fold (\<lambda>p. timerCallback) ps s) = store s"
  "noticeText (fold (\<lambda>p. timerCallback) ps s) = noticeText s"
  "closeNotice (fold (\<lambda>p. timerCallback) ps s) = closeNotice s"
  "logsContainer (fold (\<lambda>p. timerCallback) ps s) = logsContainer s"
  "lastHandle (fold (\<lambda>p. timerCallback) ps s) = lastHandle s"
  "console (fold (\<lambda>p. timerCallback) ps s) = console s"
  by (induction ps arbitrary: s; simp)+

lemma advance_frame [simp]:
  "store (advance d s) = store s"
  "noticeText (advance d s) = noticeText s"
  "closeNotice (advance d s) = closeNotice s"
  "logsContainer (advance d s) = logsContainer s"
  "lastHandle (advance d s) = lastHandle s"
  "console (advance d s) = console s"
  "now (advance d s) = now s + d"
  "pending (advance d s) = filter (\<lambda>p. \<not> snd p \<le> now s + d) (pending s)"
  by (simp_all add: advance_def Let_def)

lemma closeListener_length:
  "0 \<le> maxLogEntries (cfg e) \<Longrightarrow>
   length (logs (store (closeListener e s))) \<le> nat (maxLogEntries (cfg e))"
  by (simp add: closeListener_def addLogEntry_length)

lemma click_length:
  assumes "0 \<le> maxLogEntries (cfg e)"
    and "length (logs (store s)) \<le> nat (maxLogEntries (cfg e))"
  shows "length (logs (store (click e s))) \<le> nat (maxLogEntries (cfg e))"
proof (cases "closeNotice s")
  case None
  then show ?thesis using assms(2) by (simp add: click_def)
next
  case (Some k)
  show ?thesis
  proof (cases k)
    case 0
    with Some assms(2) show ?thesis by (simp add: click_def)
  next
    case (Suc j)
    with Some show ?thesis by (simp add: click_def closeListener_length [OF assms(1)])
  qed
qed

lemma step_length:
  assumes "0 \<le> maxLogEntries (cfg e)"
    and "length (logs (store s)) \<le> nat (maxLogEntries (cfg e))"
  shows "length (logs (store (step e a s))) \<le> nat (maxLogEntries (cfg e))"
  using assms
  by (cases a)
     (simp_all add: init_length displayNotice_logs addLogEntry_length click_length getAllNotices_def)

lemma run_length:
  assumes "0 \<le> maxLogEntries (cfg e)"
  shows "length (logs (store s)) \<le> nat (maxLogEntries (cfg e)) \<Longrightarrow>
         length (logs (store (run e acts s))) \<le> nat (maxLogEntries (cfg e))"
  unfolding run_def
  by (induction acts arbitrary: s) (simp_all add: step_length [OF assms])

lemma take_append_take: "take k (xs @ take k ys) = take k (xs @ ys)"
  by (simp add: min_def)

lemma run_appends:
  assumes "0 \<le> maxLogEntries (cfg e)"
  shows "logs (store (run e (map (\<lambda>(m, t). AppendLog m t) calls) s)) =
           take (nat (maxLogEntries (cfg e)))
             (map (\<lambda>(m, t). mkEntry e s m t) (rev calls) @ logs (store s))
         \<or> calls = []"
proof (induction calls arbitrary: s)
  case Nil
  then show ?case by simp
next
  case (Cons c calls)
  obtain m t where c: "c = (m, t)" by (cases c)
  let ?s1 = "addLogEntry e m t s"
  have mk: "mkEntry e ?s1 = mkEntry e s"
    by (simp add: mkEntry_def fun_eq_iff)
  have r: "run e (map (\<lambda>(m, t). AppendLog m t) (c # calls)) s =
           run e (map (\<lambda>(m, t). AppendLog m t) calls) ?s1"
    by (simp add: run_def c)
  show ?case
  proof (cases "calls = []")
    case True
    then show ?thesis by (simp add: run_def c addLogEntry_logs_take [OF assms])
  next
    case False
    with Cons.IH [of ?s1]
    have "logs (store (run e (map (\<lambda>(m, t). AppendLog m t) calls) ?s1)) =
           take (nat (maxLogEntries (cfg e)))
             (map (\<lambda>(m, t). mkEntry e s m t) (rev calls) @ logs (store ?s1))"
      by (simp add: mk)
    also have "\<dots> = take (nat (maxLogEntries (cfg e)))
             (map (\<lambda>(m, t). mkEntry e s m t) (rev (c # calls)) @ logs (store s))"
      by (simp only: addLogEntry_logs_take [OF assms] take_append_take) (simp add: c)
    finally show ?thesis
      by (simp only: r) simp
  qed
qed

lemma timer_inv_alt:
  "timer_inv s \<longleftrightarrow>
     pending s = [] \<or>
     (\<exists>h d. pending s = [(h, d)] \<and> noticeTimer (store s) = Some h \<and> h \<noteq> 0)"
proof (cases "pending s")
  case Nil
  then show ?thesis by (simp add: timer_inv_def)
next
  case (Cons p ps)
  then show ?thesis by (cases p; cases ps) (auto simp add: timer_inv_def)
qed







lemma displayNotice_pending:
  assumes "timer_inv s" "noticeBanner s \<noteq> None" "noticeText s \<noteq> None"
    "returns (displayNotice e n s)"
  shows "pending (state_of (displayNotice e n s)) =
           [(Suc (lastHandle s), now s + noticeDisplayTime (cfg e))]"
    and "noticeTimer (store (state_of (displayNotice e n s))) = Some (Suc (lastHandle s))"
    and "lastHandle (state_of (displayNotice e n s)) = Suc (lastHandle s)"
    and "now (state_of (displayNotice e n s)) = now s"
    and "noticeBanner (state_of (displayNotice e n s)) = Some (bannerClasses n)"
    and "noticeText (state_of (displayNotice e n s)) = Some (message n)"
    and "currentNotice (store (state_of (displayNotice e n s))) = Some n"
proof -
  have "pending (state_of (displayNotice e n s)) =
           [(Suc (lastHandle s), now s + noticeDisplayTime (cfg e))] \<and>
        noticeTimer (store (state_of (displayNotice e n s))) = Some (Suc (lastHandle s)) \<and>
        lastHandle (state_of (displayNotice e n s)) = Suc (lastHandle s) \<and>
        now (state_of (displayNotice e n s)) = now s \<and>
        noticeBanner (state_of (displayNotice e n s)) = Some (bannerClasses n) \<and>
        noticeText (state_of (displayNotice e n s)) = Some (message n) \<and>
        currentNotice (store (state_of (displayNotice e n s))) = Some n"
  proof (rule displayNotice_cases [of s e n], goal_cases missing shown thrown)
    case missing
    with assms(2,3) show ?case by auto
  next
    case (shown cs t)
    from assms(1) have "pending s = [] \<or>
        (\<exists>h d. pending s = [(h, d)] \<and> noticeTimer (store s) = Some h \<and> h \<noteq> 0)"
      by (simp add: timer_inv_alt)
    then show ?case
      by (auto simp add: shown(4) truthy_handle_def)
  next
    case (thrown cs t)
    with assms(4) show ?case by simp
  qed
  then show "pending (state_of (displayNotice e n s)) =
           [(Suc (lastHandle s), now s + noticeDisplayTime (cfg e))]"
    and "noticeTimer (store (state_of (displayNotice e n s))) = Some (Suc (lastHandle s))"
    and "lastHandle (state_of (displayNotice e n s)) = Suc (lastHandle s)"
    and "now (state_of (displayNotice e n s)) = now s"
    and "noticeBanner (state_of (displayNotice e n s)) = Some (bannerClasses n)"
    and "noticeText (state_of (displayNotice e n s)) = Some (message n)"
    and "currentNotice (store (state_of (displayNotice e n s))) = Some n"
    by simp_all
qed







lemma timerCallback_banner:
  "noticeBanner (timerCallback s) = map_option (removeAll ''active'') (noticeBanner s)"
  by (simp add: timerCallback_def classList_remove_def split: option.splits)

lemma fold_timerCallback_banner:
  "noticeBanner (fold (\<lambda>p. timerCallback) ps s) =
     (if ps = [] then noticeBanner s else map_option (removeAll ''active'') (noticeBanner s))"
proof (induction ps arbitrary: s)
  case Nil
  then show ?case by simp
next
  case (Cons p ps)
  then show ?case
    by (cases "noticeBanner s") (simp_all add: timerCallback_banner)
qed

lemma advance_banner:
  "noticeBanner (advance d s) =
     (if filter (\<lambda>p. snd p \<le> now s + d) (pending s) = [] then noticeBanner s
      else map_option (removeAll ''active'') (noticeBanner s))"
  by (simp add: advance_def Let_def fold_timerCallback_banner)


lemma accepts_returns: "accepts n \<Longrightarrow> returns (displayNotice e n s)"
  by (rule displayNotice_cases [of s e n]) simp_all

lemma hideNotice_hidden:
  assumes "\<not> banner_visible s"
  shows "noticeBanner (hideNotice s) = noticeBanner s"
  using assms by (cases "noticeBanner s") (simp_all add: hideNotice_banner banner_visible_def)

lemma state_eqI:
  fixes s s' :: state
  assumes "store s' = store s" "noticeBanner s' = noticeBanner s" "noticeText s' = noticeText s"
    "closeNotice s' = closeNotice s" "logsContainer s' = logsContainer s"
    "pending s' = pending s" "lastHandle s' = lastHandle s" "now s' = now s"
    "console s' = console s"
  shows "s' = s"
  using assms by simp

lemma store_eqI:
  fixes r r' :: store_rec
  assumes "logs r' = logs r" "currentNotice r' = currentNotice r" "noticeTimer r' = noticeTimer r"
  shows "r' = r"
  using assms by simp

lemma closeListener_current:
  "currentNotice (store ((closeListener e ^^ k) s)) = currentNotice (store s)"
  by (induction k) (simp_all add: closeListener_def)

lemma hideNotice_pow_current:
  "currentNotice (store ((hideNotice ^^ k) s)) = currentNotice (store s)"
  by (induction k) simp_all

lemma step_current:
  "\<not> displays a \<Longrightarrow> currentNotice (store (step e a s)) = currentNotice (store s)"
  by (cases a) (simp_all add: click_def closeListener_current getAllNotices_def split: option.splits)

lemma run_current:
  "list_all (\<lambda>a. \<not> displays a) acts \<Longrightarrow>
   currentNotice (store (run e acts s)) = currentNotice (store s)"
  unfolding run_def by (induction acts arbitrary: s) (simp_all add: step_current)

lemma displayNotice_current:
  "currentNotice (store (state_of (displayNotice e m t))) =
     (if returns (displayNotice e m t) \<and> noticeBanner t \<noteq> None \<and> noticeText t \<noteq> None
      then Some m else currentNotice (store t))"
  by (rule displayNotice_cases [of t e m]) auto

lemma length_stamped [simp]: "length (stamped e t calls) = length calls"
  by (induction e t calls rule: stamped.induct) simp_all

lemma run_timed_calls:
  assumes "0 \<le> maxLogEntries (cfg e)"
  shows "calls \<noteq> [] \<Longrightarrow>
         logs (store (run e (timed_calls calls) s)) =
           take (nat (maxLogEntries (cfg e))) (rev (stamped e (now s) calls) @ logs (store s))"
proof (induction calls arbitrary: s)
  case Nil
  then show ?case by simp
next
  case (Cons c calls)
  obtain d m ty where c: "c = (d, m, ty)" by (cases c)
  let ?C = "nat (maxLogEntries (cfg e))"
  let ?s1 = "addLogEntry e m ty (advance d s)"
  let ?entry = "\<lparr>log_timestamp = toISOString e (now s + d), log_message = m,
      log_type = (case ty of None \<Rightarrow> ''info'' | Some x \<Rightarrow> x)\<rparr>"
  have r: "run e (timed_calls (c # calls)) s = run e (timed_calls calls) ?s1"
    by (simp add: run_def timed_calls_def c)
  have l1: "logs (store ?s1) = take ?C (?entry # logs (store s))"
    by (simp add: addLogEntry_logs_take [OF assms] mkEntry_def)
  have n1: "now ?s1 = now s + d"
    by simp
  show ?case
  proof (cases "calls = []")
    case True
    then show ?thesis
      by (simp add: r l1 c run_def timed_calls_def)
  next
    case False
    then have "logs (store (run e (timed_calls calls) ?s1)) =
        take ?C (rev (stamped e (now ?s1) calls) @ logs (store ?s1))"
      by (rule Cons.IH)
    also have "\<dots> = take ?C (rev (stamped e (now s + d) calls) @ ?entry # logs (store s))"
      by (simp only: n1 l1 take_append_take)
    also have "\<dots> = take ?C (rev (stamped e (now s) (c # calls)) @ logs (store s))"
      by (simp add: c)
    finally show ?thesis
      by (simp only: r)
  qed
qed

section \<open>The claims\<close>

text \<open>
  C1, as stated, fails: for the notice list whose first notice has no importance,
  \<open>init\<close> displays the notice with the two base classes only and the log entry
  \<open>Displaying notice: B\<close> has the type \<open>info\<close>, the default of \<open>addLogEntry\<close>, which
  is not the notice's importance.
\<close>

theorem init_unstyled_counterexample:
  "importance (unstyled_example ! 0) = None \<and>
   returns (init (example_env unstyled_example) full_page) \<and>
   noticeBanner (state_of (init (example_env unstyled_example) full_page)) =
     Some [''notice-banner'', ''active''] \<and>
   log_message (logs (store (state_of (init (example_env unstyled_example) full_page))) ! 1) =
     ''Displaying notice: B'' \<and>
   log_type (logs (store (state_of (init (example_env unstyled_example) full_page))) ! 1) = ''info'' \<and>
   Some (log_type (logs (store (state_of (init (example_env unstyled_example) full_page))) ! 1))
     \<noteq> importance (unstyled_example ! 0)"
proof -
  let ?e = "example_env unstyled_example" and ?n = "unstyled_example ! 0"
  let ?s1 = "addLogEntry ?e ''Broadcast system initialized'' None full_page"
  have ns: "static_notices ?e = ?n # [unstyled_example ! 1]" and c: "cfg ?e = config"
    by (simp_all add: example_env_def unstyled_example_def)
  have imp: "importance ?n = None"
    by (simp add: unstyled_example_def)
  have acc: "accepts ?n"
    by (simp add: accepts_def imp)
  have b: "noticeBanner ?s1 = Some [''notice-banner'']" and t: "noticeText ?s1 = Some []"
    by (simp_all add: full_page_def)
  note d = displayNotice_ok [OF b t acc, of ?e]
  have lg: "logs (store (state_of (init ?e full_page))) ! 1 =
      mkEntry ?e full_page (''Displaying notice: '' @ message ?n) None"
    by (simp add: init_logs_Normal [OF c ns d] imp)
  have m: "message ?n = ''B''"
    by (simp add: unstyled_example_def)
  have ban: "noticeBanner (state_of (init ?e full_page)) = Some [''notice-banner'', ''active'']"
    by (simp add: init_nonempty [OF ns] d bannerClasses_def imp truthy_string_def)
  have ret: "returns (init ?e full_page)"
    by (simp add: init_nonempty [OF ns] d)
  show ?thesis
    using imp ret ban lg by (simp add: m mkEntry_def)
qed

text \<open>
  C1, amended. For every notice list with a first notice \<open>n\<close> whose importance is a token
  that \<open>classList.add\<close> accepts (non-empty, without whitespace, as the four documented
  values are), on a page with the banner and the text element and with the script's
  configuration, \<open>init\<close> returns and has displayed exactly \<open>n\<close>: the text element holds
  the message of \<open>n\<close>, the banner's classes are the two base classes and the importance,
  the current notice is \<open>n\<close>, and the log has gained, below \<open>Broadcast system ready\<close>,
  the entry with message \<open>Displaying notice: \<close> followed by the message of \<open>n\<close> and with
  the importance of \<open>n\<close> as its type.
\<close>

theorem init_displays_first:
  assumes "static_notices e = n # rest"
    and "importance n = Some imp" and "valid_token imp"
    and "cfg e = config"
    and "noticeBanner s = Some cs" and "noticeText s = Some t"
  shows "let s' = state_of (init e s) in
     returns (init e s) \<and>
     noticeText s' = Some (message n) \<and>
     noticeBanner s' = Some (if imp \<in> set [''notice-banner'', ''active'']
                             then [''notice-banner'', ''active'']
                             else [''notice-banner'', ''active'', imp]) \<and>
     imp \<in> set (the (noticeBanner s')) \<and>
     currentNotice (store s') = Some n \<and>
     logs (store s') =
       take 50 (mkEntry e s ''Broadcast system ready'' None #
                mkEntry e s (''Displaying notice: '' @ message n) (Some imp) #
                mkEntry e s ''Broadcast system initialized'' None # logs (store s)) \<and>
     log_message (logs (store s') ! 1) = ''Displaying notice: '' @ message n \<and>
     log_type (logs (store s') ! 1) = imp"
proof -
  let ?s1 = "addLogEntry e ''Broadcast system initialized'' None s"
  have acc: "accepts n" using assms(2,3) by (rule valid_accepts)
  have b1: "noticeBanner ?s1 = Some cs" and t1: "noticeText ?s1 = Some t"
    using assms(5,6) by simp_all
  note d = displayNotice_ok [OF b1 t1 acc, of e]
  have truthy: "truthy_string (importance n)"
    using assms(2,3) by (simp add: truthy_string_def valid_token_def)
  have lg: "logs (store (state_of (init e s))) =
     take 50 (mkEntry e s ''Broadcast system ready'' None #
              mkEntry e s (''Displaying notice: '' @ message n) (Some imp) #
              mkEntry e s ''Broadcast system initialized'' None # logs (store s))"
    using init_logs_Normal [OF assms(4,1) d] assms(2) by simp
  have ret: "returns (init e s)"
    by (simp add: init_nonempty [OF assms(1)] d)
  have msg: "noticeText (state_of (init e s)) = Some (message n)"
    by (simp add: init_nonempty [OF assms(1)] d)
  have cur: "currentNotice (store (state_of (init e s))) = Some n"
    by (simp add: init_nonempty [OF assms(1)] d)
  have ban: "noticeBanner (state_of (init e s)) = Some (bannerClasses n)"
    by (simp add: init_nonempty [OF assms(1)] d)
  have cls: "bannerClasses n = (if imp \<in> set [''notice-banner'', ''active'']
                             then [''notice-banner'', ''active'']
                             else [''notice-banner'', ''active'', imp])"
    using truthy assms(2) by (simp add: bannerClasses_def)
  have e1: "logs (store (state_of (init e s))) ! 1 =
      mkEntry e s (''Displaying notice: '' @ message n) (Some imp)"
    by (simp add: lg)
  show ?thesis
    unfolding Let_def
    using ret msg cur lg e1 by (simp add: ban cls mkEntry_def)
qed

theorem init_displays_first_witness:
  "returns (init (example_env spec_example) full_page) \<and>
   noticeText (state_of (init (example_env spec_example) full_page)) = Some ''B'' \<and>
   noticeBanner (state_of (init (example_env spec_example) full_page)) =
     Some [''notice-banner'', ''active'', ''warning''] \<and>
   currentNotice (store (state_of (init (example_env spec_example) full_page))) =
     Some (spec_example ! 0) \<and>
   log_message (logs (store (state_of (init (example_env spec_example) full_page))) ! 1) =
     ''Displaying notice: B'' \<and>
   log_type (logs (store (state_of (init (example_env spec_example) full_page))) ! 1) = ''warning''"
  using init_displays_first [of "example_env spec_example" "spec_example ! 0" "[spec_example ! 1]"
      "''warning''" full_page "[''notice-banner'']" "[]"]
  by (simp add: Let_def example_env_def spec_example_def valid_token_def ascii_whitespace_def
        full_page_def mkEntry_def initial_store_def)

text \<open>
  C2. Let the cap \<open>C\<close> be the configured \<open>maxLogEntries\<close>, a count (not negative; 50 in
  the script). After \<open>N > C\<close> calls of \<open>addLogEntry\<close>, made from any state and any time
  apart from each other, the log has exactly \<open>C\<close> entries: those of the last \<open>C\<close> calls,
  the newest first, each with the timestamp of its own call, its message and its type, so
  that the older log and the first \<open>N - C\<close> calls have been evicted. And no operation
  makes the log longer than \<open>C\<close>: from a state whose log has at most \<open>C\<close> entries, as
  the initial empty one has, every run of calls, clicks and timer events ends in such a
  state.
\<close>

theorem addLogEntry_cap:
  assumes "0 \<le> maxLogEntries (cfg e)" and "maxLogEntries (cfg e) < int (length calls)"
  shows "let C = nat (maxLogEntries (cfg e));
             s' = run e (timed_calls calls) s
         in length (logs (store s')) = C \<and>
            logs (store s') = take C (rev (stamped e (now s) calls)) \<and>
            (\<forall>acts s0. length (logs (store s0)) \<le> C \<longrightarrow>
                       length (logs (store (run e acts s0))) \<le> C) \<and>
            length (logs initial_store) \<le> C \<and>
            maxLogEntries config = 50"
proof -
  let ?C = "nat (maxLogEntries (cfg e))"
  let ?s' = "run e (timed_calls calls) s"
  have ne: "calls \<noteq> []" using assms by auto
  have len: "?C < length calls" using assms by linarith
  have "logs (store ?s') = take ?C (rev (stamped e (now s) calls) @ logs (store s))"
    using ne by (rule run_timed_calls [OF assms(1)])
  also have "\<dots> = take ?C (rev (stamped e (now s) calls))"
    using len by simp
  finally have lg: "logs (store ?s') = take ?C (rev (stamped e (now s) calls))" .
  have ln: "length (logs (store ?s')) = ?C"
    using len by (simp add: lg)
  have inv: "length (logs (store (run e acts s0))) \<le> ?C"
    if "length (logs (store s0)) \<le> ?C" for acts s0
    using that by (rule run_length [OF assms(1)])
  show ?thesis
    unfolding Let_def using lg ln inv by (simp add: initial_store_def config_def)
qed

theorem addLogEntry_cap_witness:
  "logs (store (run two_entries
       [Advance 0, AppendLog ''a'' None, Advance 1000, AppendLog ''b'' (Some ''warning''),
        Advance 2500, AppendLog ''c'' None] full_page)) =
     [\<lparr>log_timestamp = ''1970-01-01T00:00:03.500Z'', log_message = ''c'', log_type = ''info''\<rparr>,
      \<lparr>log_timestamp = ''1970-01-01T00:00:01.000Z'', log_message = ''b'', log_type = ''warning''\<rparr>] \<and>
   length (logs (store (run two_entries [Init, Click, Hide] full_page))) \<le> 2"
  using addLogEntry_cap [of two_entries
      "[(0, ''a'', None), (1000, ''b'', Some ''warning''), (2500, ''c'', None)]" full_page]
  by (simp add: Let_def timed_calls_def two_entries_def example_env_def full_page_def
        initial_store_def clock_text_def two_digits_def three_digits_def)



text \<open>
  C4, as stated, fails: after a notice has been displayed and its timer has fired, no
  notice is shown (the banner is hidden and no timer is pending), yet the store still
  holds the handle of the fired timer and \<open>hideNotice\<close> resets it to \<open>null\<close>: the state
  is not left unchanged.
\<close>

theorem hideNotice_stale_handle_counterexample:
  "\<not> banner_visible fired_page \<and> pending fired_page = [] \<and>
   noticeTimer (store fired_page) = Some 1 \<and>
   noticeTimer (store (hideNotice fired_page)) = None \<and>
   hideNotice fired_page \<noteq> fired_page"
proof -
  let ?e = "example_env notices"
  let ?s1 = "state_of (displayNotice ?e (notices ! 0) full_page)"
  have inv: "timer_inv full_page"
    by (simp add: timer_inv_def full_page_def)
  have p: "noticeBanner full_page \<noteq> None" "noticeText full_page \<noteq> None"
    by (simp_all add: full_page_def)
  have "accepts (notices ! 0)"
    by (simp add: accepts_def notices_def ascii_whitespace_def)
  then have r: "returns (displayNotice ?e (notices ! 0) full_page)"
    by (rule accepts_returns)
  note f = displayNotice_pending [OF inv p r]
  have D: "noticeDisplayTime (cfg ?e) = 15000"
    by (simp add: example_env_def config_def)
  have z: "lastHandle full_page = 0" "now full_page = 0"
    by (simp_all add: full_page_def)
  have hid: "\<not> banner_visible fired_page"
    by (simp add: fired_page_def banner_visible_def advance_banner f(1,4,5) D z)
  have pen: "pending fired_page = []"
    by (simp add: fired_page_def f(1) D z)
  have tim: "noticeTimer (store fired_page) = Some 1"
    by (simp add: fired_page_def f(2) z)
  have tim': "noticeTimer (store (hideNotice fired_page)) = None"
    by (simp add: hideNotice_timer tim truthy_handle_def)
  from tim tim' have "hideNotice fired_page \<noteq> fired_page"
    by auto
  with hid pen tim tim' show ?thesis by simp
qed

text \<open>
  C4, amended. \<open>hideNotice\<close> raises nothing (it is a total function on states) and is
  idempotent: calling it twice has the effect of calling it once, for every state. When
  no notice is shown (the banner is absent or not active, and no timer is pending), it
  leaves the state unchanged except that a truthy handle the store still holds is reset
  to \<open>null\<close>; when the banner is hidden and the store holds no handle, the state is
  unchanged.
\<close>

theorem hideNotice_idempotent:
  "hideNotice (hideNotice s) = hideNotice s \<and>
   (\<not> banner_visible s \<and> pending s = [] \<longrightarrow>
      hideNotice s =
        s\<lparr>store := (store s)\<lparr>noticeTimer :=
              (if truthy_handle (noticeTimer (store s)) then None else noticeTimer (store s))\<rparr>\<rparr>) \<and>
   (\<not> banner_visible s \<and> noticeTimer (store s) = None \<longrightarrow> hideNotice s = s)"
proof (intro conjI impI)
  show "hideNotice (hideNotice s) = hideNotice s" by (rule hideNotice_idem)
next
  assume h: "\<not> banner_visible s \<and> pending s = []"
  then have b: "noticeBanner (hideNotice s) = noticeBanner s"
    by (simp add: hideNotice_hidden)
  show "hideNotice s =
        s\<lparr>store := (store s)\<lparr>noticeTimer :=
              (if truthy_handle (noticeTimer (store s)) then None else noticeTimer (store s))\<rparr>\<rparr>"
  proof (rule state_eqI)
    show "store (hideNotice s) = store (s\<lparr>store := (store s)\<lparr>noticeTimer :=
              (if truthy_handle (noticeTimer (store s)) then None else noticeTimer (store s))\<rparr>\<rparr>)"
      by (rule store_eqI) (simp_all add: hideNotice_timer)
  qed (use h b in \<open>simp_all add: hideNotice_pending\<close>)
next
  assume h: "\<not> banner_visible s \<and> noticeTimer (store s) = None"
  then have b: "noticeBanner (hideNotice s) = noticeBanner s"
    by (simp add: hideNotice_hidden)
  show "hideNotice s = s"
  proof (rule state_eqI)
    show "store (hideNotice s) = store s"
      using h by (intro store_eqI) (simp_all add: hideNotice_timer truthy_handle_def)
  qed (use h b in \<open>simp_all add: hideNotice_pending truthy_handle_def\<close>)
qed

theorem hideNotice_idempotent_witness:
  "\<not> banner_visible full_page \<and> pending full_page = [] \<and>
   noticeTimer (store full_page) = None \<and>
   hideNotice full_page = full_page \<and>
   hideNotice (hideNotice fired_page) = hideNotice fired_page"
  using hideNotice_idempotent [of full_page] hideNotice_idempotent [of fired_page]
  by (simp add: banner_visible_def full_page_def initial_store_def)

text \<open>
  C5. For every state whose log container exists, \<open>updateLogsUI\<close> replaces the children
  of the container, whatever they were, by: the header \<open>Notice History:\<close>; one element
  per static notice in list order, whose markup shows, in brackets, the locale date and
  the locale time of the notice's own timestamp, followed by the notice's message; the
  header \<open>System Logs:\<close>; one element per log entry in the order of the store, which is
  newest first, whose markup shows, in brackets, the locale time only of the entry's
  timestamp, followed by the entry's message. Every notice element therefore has a
  smaller index than every log element, and nothing but the container changes.
\<close>

theorem updateLogsUI_rebuilds:
  assumes \<open>logsContainer s = Some old\<close>
  shows \<open>let kids = the (logsContainer (updateLogsUI e s));
             ns = static_notices e; ls = logs (store s)
         in updateLogsUI e s = s\<lparr>logsContainer := Some kids\<rparr> \<and>
            kids = sectionHeader ''Notice History:'' # map (noticeElement e) ns @
                   sectionHeader ''System Logs:'' # map (logElement e) ls \<and>
            length kids = length ns + length ls + 2 \<and>
            kids ! 0 = \<lparr>className = ''log-section-header'',
                         content = TextContent ''Notice History:''\<rparr> \<and>
            (\<forall>i < length ns. kids ! (1 + i) =
               \<lparr>className = ''log-entry log-'' @
                    (case importance (ns ! i) of None \<Rightarrow> ''undefined'' | Some imp \<Rightarrow> imp),
                content = InnerHTML
                  (''\<newline>                <span class="log-timestamp">['' @
                   toLocaleDateString e (timestamp (ns ! i)) @ '' '' @
                   toLocaleTimeString e (timestamp (ns ! i)) @ '']</span>'' @
                   ''\<newline>                <span class="log-message">'' @
                   message (ns ! i) @ ''</span>'' @
                   ''\<newline>            '')\<rparr>) \<and>
            kids ! (length ns + 1) = \<lparr>className = ''log-section-header'',
                                       content = TextContent ''System Logs:''\<rparr> \<and>
            (\<forall>j < length ls. kids ! (length ns + 2 + j) =
               \<lparr>className = ''log-entry log-'' @ log_type (ls ! j),
                content = InnerHTML
                  (''\<newline>                <span class="log-timestamp">['' @
                   toLocaleTimeString e (log_timestamp (ls ! j)) @ '']</span>'' @
                   ''\<newline>                <span class="log-message">'' @
                   log_message (ls ! j) @ ''</span>'' @
                   ''\<newline>            '')\<rparr>)\<close>
proof -
  let ?ns = "static_notices e" and ?ls = "logs (store s)"
  let ?kids = "sectionHeader ''Notice History:'' # map (noticeElement e) ?ns @
               sectionHeader ''System Logs:'' # map (logElement e) ?ls"
  have upd: "updateLogsUI e s = s\<lparr>logsContainer := Some ?kids\<rparr>"
    using assms by (rule updateLogsUI_present)
  have kids: "the (logsContainer (updateLogsUI e s)) = ?kids"
    by (simp add: upd)
  have n_at: "?kids ! (1 + i) = noticeElement e (?ns ! i)" if "i < length ?ns" for i
    using that by (simp add: nth_append)
  have l_at: "?kids ! (length ?ns + 2 + j) = logElement e (?ls ! j)" if "j < length ?ls" for j
    using that by (simp add: nth_append)
  have h2: "?kids ! (length ?ns + 1) = sectionHeader ''System Logs:''"
    by (simp add: nth_append)
  have h1: "?kids ! 0 = sectionHeader ''Notice History:''"
    by simp
  have len: "length ?kids = length ?ns + length ?ls + 2"
    by simp
  show ?thesis
    unfolding Let_def kids
  proof (intro conjI allI impI)
    show "updateLogsUI e s = s\<lparr>logsContainer := Some ?kids\<rparr>" by (rule upd)
    show "?kids = ?kids" by (rule refl)
    show "length ?kids = length ?ns + length ?ls + 2" by (rule len)
    show "?kids ! 0 = \<lparr>className = ''log-section-header'',
                         content = TextContent ''Notice History:''\<rparr>"
      using h1 by (simp add: sectionHeader_def)
    show "?kids ! (length ?ns + 1) = \<lparr>className = ''log-section-header'',
                                       content = TextContent ''System Logs:''\<rparr>"
      using h2 by (simp add: sectionHeader_def)
  next
    fix i assume "i < length ?ns"
    then have "?kids ! (1 + i) = noticeElement e (?ns ! i)" by (rule n_at)
    then show \<open>?kids ! (1 + i) =
               \<lparr>className = ''log-entry log-'' @
                    (case importance (?ns ! i) of None \<Rightarrow> ''undefined'' | Some imp \<Rightarrow> imp),
                content = InnerHTML
                  (''\<newline>                <span class="log-timestamp">['' @
                   toLocaleDateString e (timestamp (?ns ! i)) @ '' '' @
                   toLocaleTimeString e (timestamp (?ns ! i)) @ '']</span>'' @
                   ''\<newline>                <span class="log-message">'' @
                   message (?ns ! i) @ ''</span>'' @
                   ''\<newline>            '')\<rparr>\<close>
      by (simp add: noticeElement_def entryMarkup_def js_string_def)
  next
    fix j assume "j < length ?ls"
    then have "?kids ! (length ?ns + 2 + j) = logElement e (?ls ! j)" by (rule l_at)
    then show \<open>?kids ! (length ?ns + 2 + j) =
               \<lparr>className = ''log-entry log-'' @ log_type (?ls ! j),
                content = InnerHTML
                  (''\<newline>                <span class="log-timestamp">['' @
                   toLocaleTimeString e (log_timestamp (?ls ! j)) @ '']</span>'' @
                   ''\<newline>                <span class="log-message">'' @
                   log_message (?ls ! j) @ ''</span>'' @
                   ''\<newline>            '')\<rparr>\<close>
      by (simp add: logElement_def entryMarkup_def)
  qed
qed

theorem updateLogsUI_rebuilds_witness:
  \<open>logsContainer (addLogEntry (example_env spec_example) ''hello'' (Some ''warning'')
       (advance 3723456 full_page)) \<noteq> None \<and>
   logsContainer (addLogEntry (example_env spec_example) ''hello'' (Some ''warning'')
       (advance 3723456 full_page)) \<noteq> Some [] \<and>
   logsContainer (updateLogsUI (example_env spec_example)
       (addLogEntry (example_env spec_example) ''hello'' (Some ''warning'')
          (advance 3723456 full_page))) =
     Some
      [\<lparr>className = ''log-section-header'', content = TextContent ''Notice History:''\<rparr>,
       \<lparr>className = ''log-entry log-warning'', content = InnerHTML
          (''\<newline>                <span class="log-timestamp">[2025-02-25 12:45:00Z]</span>'' @
           ''\<newline>                <span class="log-message">B</span>'' @
           ''\<newline>            '')\<rparr>,
       \<lparr>className = ''log-entry log-info'', content = InnerHTML
          (''\<newline>                <span class="log-timestamp">[2025-02-24 09:00:00Z]</span>'' @
           ''\<newline>                <span class="log-message">A</span>'' @
           ''\<newline>            '')\<rparr>,
       \<lparr>className = ''log-section-header'', content = TextContent ''System Logs:''\<rparr>,
       \<lparr>className = ''log-entry log-warning'', content = InnerHTML
          (''\<newline>                <span class="log-timestamp">[01:02:03.456Z]</span>'' @
           ''\<newline>                <span class="log-message">hello</span>'' @
           ''\<newline>            '')\<rparr>]\<close>
proof -
  let ?e = "example_env spec_example"
  let ?s = "addLogEntry ?e ''hello'' (Some ''warning'') (advance 3723456 full_page)"
  have c: "logsContainer ?s = Some (the (logsContainer ?s))"
    by (simp add: full_page_def)
  have ne: "logsContainer ?s \<noteq> Some []"
    by (simp add: addLogEntry_def Let_def updateLogsUI_present [of _ "[]"] full_page_def)
  have l: "logs (store ?s) =
      [\<lparr>log_timestamp = ''1970-01-01T01:02:03.456Z'', log_message = ''hello'',
        log_type = ''warning''\<rparr>]"
    by (simp add: addLogEntry_logs_config example_env_def full_page_def initial_store_def
          mkEntry_def clock_text_def two_digits_def three_digits_def)
  have ns: "static_notices ?e = spec_example"
    by (simp add: example_env_def)
  have kids: "the (logsContainer (updateLogsUI ?e ?s)) =
      sectionHeader ''Notice History:'' # map (noticeElement ?e) spec_example @
      sectionHeader ''System Logs:'' # map (logElement ?e) (logs (store ?s))"
    using updateLogsUI_rebuilds [OF c, of ?e] by (simp add: Let_def ns)
  have "logsContainer (updateLogsUI ?e ?s) \<noteq> None"
    by (simp add: full_page_def)
  then have some:
    "logsContainer (updateLogsUI ?e ?s) = Some (the (logsContainer (updateLogsUI ?e ?s)))"
    by auto
  have eq: \<open>the (logsContainer (updateLogsUI ?e ?s)) =
      [\<lparr>className = ''log-section-header'', content = TextContent ''Notice History:''\<rparr>,
       \<lparr>className = ''log-entry log-warning'', content = InnerHTML
          (''\<newline>                <span class="log-timestamp">[2025-02-25 12:45:00Z]</span>'' @
           ''\<newline>                <span class="log-message">B</span>'' @
           ''\<newline>            '')\<rparr>,
       \<lparr>className = ''log-entry log-info'', content = InnerHTML
          (''\<newline>                <span class="log-timestamp">[2025-02-24 09:00:00Z]</span>'' @
           ''\<newline>                <span class="log-message">A</span>'' @
           ''\<newline>            '')\<rparr>,
       \<lparr>className = ''log-section-header'', content = TextContent ''System Logs:''\<rparr>,
       \<lparr>className = ''log-entry log-warning'', content = InnerHTML
          (''\<newline>                <span class="log-timestamp">[01:02:03.456Z]</span>'' @
           ''\<newline>                <span class="log-message">hello</span>'' @
           ''\<newline>            '')\<rparr>]\<close>
    unfolding kids l
    by (simp add: spec_example_def sectionHeader_def noticeElement_def logElement_def
          entryMarkup_def js_string_def example_env_def)
  have nn: "logsContainer ?s \<noteq> None"
    by (simp add: full_page_def)
  from nn ne some [unfolded eq] show ?thesis
    by (intro conjI)
qed

text \<open>
  C6, as stated, fails: not every operation writes a diagnostic when its element is
  missing. Without the log container \<open>updateLogsUI\<close> (and so \<open>addLogEntry\<close>) returns
  silently, and without the banner \<open>hideNotice\<close> skips the class removal silently: the
  console stays empty.
\<close>

theorem silent_skip_counterexample:
  "logsContainer bare_page = None \<and>
   updateLogsUI (example_env notices) bare_page = bare_page \<and>
   console (updateLogsUI (example_env notices) bare_page) = [] \<and>
   console (addLogEntry (example_env notices) ''x'' None bare_page) = [] \<and>
   noticeBanner bare_page = None \<and>
   console (hideNotice bare_page) = []"
  by (simp add: updateLogsUI_absent) (simp add: bare_page_def)

text \<open>
  C6, amended. A missing page element never makes an operation raise, and the dependent
  step is skipped. \<open>displayNotice\<close> without the banner or the text element writes the
  diagnostic \<open>Notice banner elements not found\<close> and does nothing else: the store (log,
  current notice, timer handle), the timer queue and the page are unchanged; \<open>init\<close>
  then still returns and still wires the close button. \<open>setupCloseButton\<close> without the
  button writes \<open>Close button element not found\<close> and does nothing else. \<open>updateLogsUI\<close>
  without the log container changes nothing and writes no diagnostic, and \<open>addLogEntry\<close>
  then renders nothing and writes none either. \<open>hideNotice\<close> without the banner writes no
  diagnostic and still clears the stored timer handle.
\<close>

theorem missing_elements:
  "(noticeBanner s = None \<or> noticeText s = None \<longrightarrow>
      displayNotice e n s = Normal (console_error ''Notice banner elements not found'' s) \<and>
      store (state_of (displayNotice e n s)) = store s \<and>
      pending (state_of (displayNotice e n s)) = pending s \<and>
      lastHandle (state_of (displayNotice e n s)) = lastHandle s \<and>
      noticeBanner (state_of (displayNotice e n s)) = noticeBanner s \<and>
      noticeText (state_of (displayNotice e n s)) = noticeText s \<and>
      returns (init e s) \<and>
      closeNotice (state_of (init e s)) = map_option Suc (closeNotice s)) \<and>
   (closeNotice s = None \<longrightarrow>
      setupCloseButton s = console_error ''Close button element not found'' s) \<and>
   (logsContainer s = None \<longrightarrow>
      updateLogsUI e s = s \<and>
      logsContainer (addLogEntry e msg ty s) = None \<and>
      console (addLogEntry e msg ty s) = console s) \<and>
   (noticeBanner s = None \<longrightarrow>
      noticeBanner (hideNotice s) = None \<and>
      console (hideNotice s) = console s \<and>
      noticeTimer (store (hideNotice s)) =
        (if truthy_handle (noticeTimer (store s)) then None else noticeTimer (store s)))"
proof (intro conjI impI)
  assume m: "noticeBanner s = None \<or> noticeText s = None"
  note d = displayNotice_missing [OF m, of e n]
  show "displayNotice e n s = Normal (console_error ''Notice banner elements not found'' s)"
    by (rule d)
  show "store (state_of (displayNotice e n s)) = store s"
    "pending (state_of (displayNotice e n s)) = pending s"
    "lastHandle (state_of (displayNotice e n s)) = lastHandle s"
    "noticeBanner (state_of (displayNotice e n s)) = noticeBanner s"
    "noticeText (state_of (displayNotice e n s)) = noticeText s"
    by (simp_all add: d)
  let ?s1 = "addLogEntry e ''Broadcast system initialized'' None s"
  have m1: "noticeBanner ?s1 = None \<or> noticeText ?s1 = None"
    using m by simp
  show "returns (init e s)"
    by (cases "static_notices e")
       (simp_all add: init_empty init_nonempty displayNotice_missing [OF m1])
  show "closeNotice (state_of (init e s)) = map_option Suc (closeNotice s)"
    by (cases "static_notices e")
       (simp_all add: init_empty init_nonempty displayNotice_missing [OF m1]
          setupCloseButton_listeners)
next
  assume "closeNotice s = None"
  then show "setupCloseButton s = console_error ''Close button element not found'' s"
    by (simp add: setupCloseButton_def)
next
  assume c: "logsContainer s = None"
  then show "updateLogsUI e s = s" by (rule updateLogsUI_absent)
  from c show "logsContainer (addLogEntry e msg ty s) = None" by simp
  show "console (addLogEntry e msg ty s) = console s" by simp
next
  assume b: "noticeBanner s = None"
  then show "noticeBanner (hideNotice s) = None" by (simp add: hideNotice_banner)
  show "console (hideNotice s) = console s" by simp
  show "noticeTimer (store (hideNotice s)) =
        (if truthy_handle (noticeTimer (store s)) then None else noticeTimer (store s))"
    by (rule hideNotice_timer)
qed

theorem missing_elements_witness:
  "noticeBanner bare_page = None \<and> closeNotice bare_page = None \<and> logsContainer bare_page = None \<and>
   console (state_of (displayNotice (example_env notices) (notices ! 0) bare_page)) =
     [''Notice banner elements not found''] \<and>
   store (state_of (displayNotice (example_env notices) (notices ! 0) bare_page)) = initial_store \<and>
   pending (state_of (displayNotice (example_env notices) (notices ! 0) bare_page)) = [] \<and>
   returns (init (example_env notices) bare_page) \<and>
   console (setupCloseButton bare_page) = [''Close button element not found''] \<and>
   updateLogsUI (example_env notices) bare_page = bare_page"
  using missing_elements [of bare_page "example_env notices" "notices ! 0"]
  by (simp add: bare_page_def console_error_def)

text \<open>
  C7, as stated, fails on the text of the entry: no entry with the message
  \<open>no notices available\<close> is appended; the message of the source starts with a capital.
\<close>

theorem init_no_notices_counterexample:
  "map log_message (logs (store (state_of (init (example_env []) full_page)))) =
     [''Broadcast system ready'', ''No notices available'', ''Broadcast system initialized''] \<and>
   ''no notices available'' \<notin>
     set (map log_message (logs (store (state_of (init (example_env []) full_page)))))"
proof -
  have e: "static_notices (example_env []) = []" and c: "cfg (example_env []) = config"
    by (simp_all add: example_env_def)
  have "map log_message (logs (store (state_of (init (example_env []) full_page)))) =
     [''Broadcast system ready'', ''No notices available'', ''Broadcast system initialized'']"
    by (simp add: init_empty [OF e] addLogEntry_logs_config [OF c] mkEntry_def full_page_def
          initial_store_def)
  then show ?thesis by simp
qed

text \<open>
  C7, amended. For the empty notice list (and the script's configuration) \<open>init\<close>
  returns, appends the three entries \<open>Broadcast system initialized\<close>,
  \<open>No notices available\<close> and \<open>Broadcast system ready\<close>, each of type \<open>info\<close>, and never
  calls \<open>displayNotice\<close>: the banner, the text element, the timer queue, the last timer
  handle, the current notice and the stored handle are as before and the console has
  gained at most the diagnostic of the close button, whereas every call of
  \<open>displayNotice\<close> that returns has started a timer or written its own diagnostic.
\<close>

theorem init_no_notices:
  assumes "static_notices e = []" and "cfg e = config"
  shows "let s' = state_of (init e s) in
     returns (init e s) \<and>
     logs (store s') =
       take 50 (mkEntry e s ''Broadcast system ready'' None #
                mkEntry e s ''No notices available'' None #
                mkEntry e s ''Broadcast system initialized'' None # logs (store s)) \<and>
     noticeBanner s' = noticeBanner s \<and> noticeText s' = noticeText s \<and>
     pending s' = pending s \<and> lastHandle s' = lastHandle s \<and>
     currentNotice (store s') = currentNotice (store s) \<and>
     noticeTimer (store s') = noticeTimer (store s) \<and>
     console s' = console s @
       (if closeNotice s = None then [''Close button element not found''] else []) \<and>
     (\<forall>m t. returns (displayNotice e m t) \<longrightarrow>
        lastHandle (state_of (displayNotice e m t)) = Suc (lastHandle t) \<or>
        console (state_of (displayNotice e m t)) =
          console t @ [''Notice banner elements not found''])"
proof -
  note i = init_empty [OF assms(1), of s]
  have lg: "logs (store (state_of (init e s))) =
       take 50 (mkEntry e s ''Broadcast system ready'' None #
                mkEntry e s ''No notices available'' None #
                mkEntry e s ''Broadcast system initialized'' None # logs (store s))"
    by (simp add: i addLogEntry_logs_config [OF assms(2)] take_Cons_take mkEntry_def)
  have fr: "noticeBanner (state_of (init e s)) = noticeBanner s"
      "noticeText (state_of (init e s)) = noticeText s"
      "pending (state_of (init e s)) = pending s"
      "lastHandle (state_of (init e s)) = lastHandle s"
      "currentNotice (store (state_of (init e s))) = currentNotice (store s)"
      "noticeTimer (store (state_of (init e s))) = noticeTimer (store s)"
    by (simp_all add: i)
  have co: "console (state_of (init e s)) = console s @
       (if closeNotice s = None then [''Close button element not found''] else [])"
    by (simp add: i setupCloseButton_console)
  have ret: "returns (init e s)" by (simp add: i)
  show ?thesis
    unfolding Let_def using ret lg fr co displayNotice_trace [of e] by simp
qed

theorem init_no_notices_witness:
  "returns (init (example_env []) full_page) \<and>
   map log_message (logs (store (state_of (init (example_env []) full_page)))) =
     [''Broadcast system ready'', ''No notices available'', ''Broadcast system initialized''] \<and>
   noticeBanner (state_of (init (example_env []) full_page)) = Some [''notice-banner''] \<and>
   pending (state_of (init (example_env []) full_page)) = [] \<and>
   lastHandle (state_of (init (example_env []) full_page)) = 0 \<and>
   currentNotice (store (state_of (init (example_env []) full_page))) = None \<and>
   console (state_of (init (example_env []) full_page)) = []"
  using init_no_notices [of "example_env []" full_page]
  by (simp add: Let_def example_env_def full_page_def mkEntry_def initial_store_def)

text \<open>
  C8. For every notice whose importance is falsy (absent or the empty string),
  \<open>displayNotice\<close> returns without raising, and on a page with the banner and the text
  element the banner is left with exactly the two base classes \<open>notice-banner\<close> and
  \<open>active\<close>, so it is visible, the text element holds the notice's message and the
  notice is the current one.
\<close>

theorem displayNotice_without_importance:
  assumes "\<not> truthy_string (importance n)"
  shows "let s' = state_of (displayNotice e n s) in
     returns (displayNotice e n s) \<and>
     (noticeBanner s \<noteq> None \<and> noticeText s \<noteq> None \<longrightarrow>
        noticeBanner s' = Some [''notice-banner'', ''active''] \<and>
        noticeText s' = Some (message n) \<and>
        banner_visible s' \<and>
        currentNotice (store s') = Some n)"
proof (rule displayNotice_cases [of s e n], goal_cases missing shown thrown)
  case missing
  then show ?case by (auto simp add: Let_def)
next
  case (shown cs t)
  have "bannerClasses n = [''notice-banner'', ''active'']"
    using assms by (simp add: bannerClasses_def)
  with shown show ?case by (simp add: Let_def banner_visible_def)
next
  case (thrown cs t)
  with assms falsy_accepts show ?case by blast
qed

theorem displayNotice_without_importance_witness:
  "\<not> truthy_string (importance unstyled_notice) \<and>
   returns (displayNotice (example_env notices) unstyled_notice full_page) \<and>
   noticeBanner (state_of (displayNotice (example_env notices) unstyled_notice full_page)) =
     Some [''notice-banner'', ''active''] \<and>
   noticeText (state_of (displayNotice (example_env notices) unstyled_notice full_page)) = Some ''B'' \<and>
   returns (displayNotice (example_env notices) (unstyled_notice\<lparr>importance := Some []\<rparr>) full_page)"
  using displayNotice_without_importance [of unstyled_notice "example_env notices" full_page]
    displayNotice_without_importance [of "unstyled_notice\<lparr>importance := Some []\<rparr>" "example_env notices" full_page]
  by (simp add: Let_def unstyled_notice_def truthy_string_def full_page_def)

text \<open>
  C9. For every state, \<open>getAllNotices\<close> returns the static notice list unchanged and
  modifies no component of the state: the logs, the current notice, the timer handle and
  the timer queue are as before, and a second call returns the same list as the first.
\<close>

theorem getAllNotices_frame:
  "fst (getAllNotices e s) = static_notices e \<and>
   snd (getAllNotices e s) = s \<and>
   logs (store (snd (getAllNotices e s))) = logs (store s) \<and>
   currentNotice (store (snd (getAllNotices e s))) = currentNotice (store s) \<and>
   noticeTimer (store (snd (getAllNotices e s))) = noticeTimer (store s) \<and>
   pending (snd (getAllNotices e s)) = pending s \<and>
   fst (getAllNotices e (snd (getAllNotices e s))) = fst (getAllNotices e s)"
  by (simp add: getAllNotices_def)

text \<open>
  C10. After a successful \<open>displayNotice\<close> of \<open>n\<close> (the banner and the text element
  exist and the call returns) the current notice is \<open>n\<close>, and it still is after any
  number of calls of \<open>hideNotice\<close>, and after any run of actions none of which displays
  (hiding, appending to the log, reading the notices, clicks, timer events). A call of
  \<open>displayNotice\<close> replaces the current notice exactly when it is successful.
\<close>

theorem hideNotice_keeps_current:
  assumes "noticeBanner s \<noteq> None" and "noticeText s \<noteq> None"
    and "returns (displayNotice e n s)"
  shows "let s' = state_of (displayNotice e n s) in
     currentNotice (store s') = Some n \<and>
     (\<forall>k. currentNotice (store ((hideNotice ^^ k) s')) = Some n) \<and>
     (\<forall>acts. list_all (\<lambda>a. \<not> displays a) acts \<longrightarrow>
        currentNotice (store (run e acts s')) = Some n) \<and>
     (\<forall>m t. currentNotice (store (state_of (displayNotice e m t))) =
        (if returns (displayNotice e m t) \<and> noticeBanner t \<noteq> None \<and> noticeText t \<noteq> None
         then Some m else currentNotice (store t)))"
proof -
  have c: "currentNotice (store (state_of (displayNotice e n s))) = Some n"
    using assms by (simp add: displayNotice_current)
  show ?thesis
    unfolding Let_def
    using c displayNotice_current by (simp add: hideNotice_pow_current run_current)
qed

theorem hideNotice_keeps_current_witness:
  "noticeBanner full_page \<noteq> None \<and> noticeText full_page \<noteq> None \<and>
   returns (displayNotice (example_env notices) (notices ! 0) full_page) \<and>
   currentNotice (store (hideNotice (hideNotice (hideNotice
     (state_of (displayNotice (example_env notices) (notices ! 0) full_page)))))) =
     Some (notices ! 0) \<and>
   currentNotice (store (run (example_env notices) [Hide, Click, Advance 15000, Hide]
     (state_of (displayNotice (example_env notices) (notices ! 0) full_page)))) =
     Some (notices ! 0)"
proof -
  let ?e = "example_env notices"
  have p: "noticeBanner full_page \<noteq> None" "noticeText full_page \<noteq> None"
    by (simp_all add: full_page_def)
  have "accepts (notices ! 0)"
    by (simp add: accepts_def notices_def ascii_whitespace_def)
  then have r: "returns (displayNotice ?e (notices ! 0) full_page)"
    by (rule accepts_returns)
  have k: "hideNotice (hideNotice (hideNotice s)) = (hideNotice ^^ 3) s" for s
    by (simp add: numeral_3_eq_3)
  have na: "list_all (\<lambda>a. \<not> displays a) [Hide, Click, Advance 15000, Hide]"
    by simp
  show ?thesis
    using hideNotice_keeps_current [OF p r] p r na
    unfolding Let_def k by blast
qed

end
